theory Spec2Isabelle
  imports Main "HOL-Library.Word"
begin

unbundle bit_operations_syntax

section \<open>Firmware-update metadata: errors and layout\<close>

text \<open>
  The repository's \<^verbatim>\<open>src/metadata.py\<close>, \<^verbatim>\<open>src/structs.py\<close>, \<^verbatim>\<open>src/uuid_t.py\<close> and
  \<^verbatim>\<open>src/utils.py\<close> are not part of the sources at hand; only their callers
  \<^verbatim>\<open>fwumd_tool.py\<close> and \<^verbatim>\<open>src/shell.py\<close> are. The codec, the validator and the
  generator are therefore modelled from the specification; the command line and the
  shell are modelled from their code.
\<close>

text \<open>The error taxonomy of the specification (section 7).\<close>

datatype error =
    ConfigError
  | SizeMismatchError
  | IntegrityError
  | ValidationError
  | ConsistencyError
  | UUIDFormatError
  | EncodeError

type_synonym byte = "8 word"
type_synonym u32 = "32 word"

subsection \<open>Layout Calculator\<close>

text \<open>
  Modelled from the spec: the Layout Calculator (the ctypes structure of
  \<^verbatim>\<open>src/structs.py\<close> is missing). Section 6 fixes the fields and their order: four
  u32 header fields, then per image two 16-byte UUIDs and \<open>bank_count\<close> bank records of
  a 16-byte UUID and two u32. The offsets and strides are computed from these sizes.
\<close>

record layout =
  image_count :: nat
  bank_count :: nat
  off_crc32 :: nat
  off_version :: nat
  off_active_index :: nat
  off_previous_active_index :: nat
  entries_offset :: nat
  off_img_type_uuid :: nat
  off_location_uuid :: nat
  banks_offset :: nat
  off_img_uuid :: nat
  off_accepted :: nat
  off_reserved :: nat
  bank_stride :: nat
  entry_stride :: nat
  total_size :: nat

definition u32_size :: nat where
  "u32_size = 4"

definition uuid_size :: nat where
  "uuid_size = 16"

definition calc_layout :: "int \<Rightarrow> int \<Rightarrow> error + layout" where
  "calc_layout ic bc =
     (if ic < 1 \<or> bc < 1 then Inl ConfigError
      else
        let o_crc = 0;
            o_ver = o_crc + u32_size;
            o_act = o_ver + u32_size;
            o_prev = o_act + u32_size;
            e_off = o_prev + u32_size;
            o_type = 0;
            o_loc = o_type + uuid_size;
            b_off = o_loc + uuid_size;
            o_uuid = 0;
            o_acc = o_uuid + uuid_size;
            o_res = o_acc + u32_size;
            b_stride = o_res + u32_size;
            e_stride = b_off + nat bc * b_stride
        in Inr \<lparr> image_count = nat ic, bank_count = nat bc,
                 off_crc32 = o_crc, off_version = o_ver, off_active_index = o_act,
                 off_previous_active_index = o_prev, entries_offset = e_off,
                 off_img_type_uuid = o_type, off_location_uuid = o_loc,
                 banks_offset = b_off, off_img_uuid = o_uuid, off_accepted = o_acc,
                 off_reserved = o_res, bank_stride = b_stride, entry_stride = e_stride,
                 total_size = e_off + nat ic * e_stride \<rparr>)"

section \<open>The structured model\<close>

text \<open>
  The structured (JSON-compatible) form of section 6 of the specification, as the code
  reads and writes it: \<^verbatim>\<open>metadata["metadata"]["active_index"]\<close>,
  \<^verbatim>\<open>metadata["configs"]["nb_fw_banks"]\<close>, \<^verbatim>\<open>metadata["uuids"]["entries"]\<close> and so on in
  \<^verbatim>\<open>src/shell.py\<close>. A Python dictionary keeps its insertion order, so a dictionary is
  an association list; a value of the UUID side-table may be unset (\<^verbatim>\<open>None\<close>, as
  \<^verbatim>\<open>do_create_metadata\<close> initialises it).
\<close>

record bank =
  accepted :: bool
  reserved :: int

record image =
  location :: string
  img_bank_info :: "(string \<times> bank) list"

record metadata =
  version :: int
  active_index :: int
  previous_active_index :: int
  img_entry :: "(string \<times> image) list"

record uuid_tables =
  entries :: "(string \<times> string option) list"
  locations :: "(string \<times> string option) list"

record configs =
  nb_fw_img :: int
  nb_fw_banks :: int

record model =
  metadata :: metadata
  uuids :: uuid_tables
  configs :: configs

text \<open>
  The invariant of section 3 on the two indices:
  \<open>active_index, previous_active_index \<in> [0, bank_count)\<close>.
\<close>

definition indices_in_range :: "model \<Rightarrow> bool" where
  "indices_in_range m \<longleftrightarrow>
     0 \<le> active_index (metadata m) \<and> active_index (metadata m) < nb_fw_banks (configs m) \<and>
     0 \<le> previous_active_index (metadata m) \<and>
     previous_active_index (metadata m) < nb_fw_banks (configs m)"

section \<open>The command line and the shell (from the code)\<close>

text \<open>
  Python exceptions as values. \<open>Exception\<close> is a plain \<^verbatim>\<open>raise Exception(...)\<close> (the
  message is not kept); \<open>CoreError\<close> carries an error of the codec layer;
  \<open>KeyboardInterrupt\<close> stands for the exceptions that do not derive from
  \<^verbatim>\<open>Exception\<close>, which \<^verbatim>\<open>except Exception\<close> does not catch.
\<close>

datatype exn =
    Exception
  | AssertionError
  | IndexError
  | ValueError
  | TypeError
  | OSError
  | CoreError error
  | KeyboardInterrupt

fun is_Exception :: "exn \<Rightarrow> bool" where
  "is_Exception KeyboardInterrupt = False"
| "is_Exception _ = True"

text \<open>
  The functions of the missing modules that the command line and the shell call are
  parameters: nothing is assumed about them. \<open>'fw\<close> is the ctypes structure that
  \<^verbatim>\<open>fwupd_from_dict\<close> returns; \<open>readinto\<close> is \<^verbatim>\<open>file.readinto(fwupd)\<close>, which overlays
  the bytes of a file on the structure, and \<open>struct_bytes\<close> the bytes that
  \<^verbatim>\<open>file.write(fwupd)\<close> writes. \<open>check_metadata\<close> is \<^verbatim>\<open>validate_metadata\<close>. \<open>json_load\<close>
  and \<open>json_dump\<close> are Python's \<^verbatim>\<open>json.load\<close> and \<^verbatim>\<open>json.dump\<close>; a loaded document is a
  model or \<^verbatim>\<open>null\<close>, documents of another shape are not represented.
\<close>

record 'fw core =
  create_dummy_metadata :: "int \<Rightarrow> int \<Rightarrow> exn + model"
  check_metadata :: "model option \<Rightarrow> bool"
  fwupd_from_dict :: "model \<Rightarrow> exn + 'fw"
  fwupd_to_dict :: "'fw \<Rightarrow> int \<Rightarrow> int \<Rightarrow> string list \<Rightarrow> (string \<times> string option) list \<Rightarrow> exn + model"
  validate_fwupd_and_dict :: "model \<Rightarrow> 'fw \<Rightarrow> exn + bool"
  readinto :: "byte list \<Rightarrow> 'fw \<Rightarrow> 'fw"
  struct_bytes :: "'fw \<Rightarrow> byte list"
  json_load :: "byte list \<Rightarrow> exn + model option"
  json_dump :: "model option \<Rightarrow> byte list"

subsection \<open>\<^verbatim>\<open>cli_binparse\<close> of \<^verbatim>\<open>fwumd_tool.py\<close>\<close>

record template =
  tpl_configs :: configs
  tpl_uuids :: uuid_tables

text \<open>
  The parsed arguments of \<^verbatim>\<open>binparse\<close>: the template file's JSON when \<^verbatim>\<open>--template\<close> is
  given, the global options \<^verbatim>\<open>--nb-fw-imgs\<close> and \<^verbatim>\<open>--nb-banks\<close> (defaults 1 and 2) and
  the content of the binary file. The result is the JSON written to \<^verbatim>\<open>jsonfile\<close>;
  \<^verbatim>\<open>display\<close> only prints and is left out.
\<close>

record binparse_args =
  template :: "template option"
  nb_fw_imgs :: int
  nb_banks :: int
  binfile :: "byte list"

definition cli_binparse :: "'fw core \<Rightarrow> binparse_args \<Rightarrow> exn + model" where
  "cli_binparse c args =
     (let (template_uuids, dummy) =
            (case template args of
               Some t \<Rightarrow>
                 (tpl_uuids t,
                  create_dummy_metadata c (nb_fw_img (tpl_configs t))
                    (nb_fw_banks (tpl_configs t)))
             | None \<Rightarrow>
                 (\<lparr> entries = [], locations = [] \<rparr>,
                  create_dummy_metadata c (nb_fw_imgs args) (nb_banks args)))
      in case dummy of
           Inl e \<Rightarrow> Inl e
         | Inr dummy_metadata \<Rightarrow>
             if \<not> check_metadata c (Some dummy_metadata) then Inl AssertionError
             else
               (case fwupd_from_dict c dummy_metadata of
                  Inl e \<Rightarrow> Inl e
                | Inr fwupd \<Rightarrow>
                    fwupd_to_dict c (readinto c (binfile args) fwupd)
                      (nb_fw_imgs args) (nb_banks args)
                      (map fst (entries template_uuids)) (locations template_uuids)))"

text \<open>
  The configuration that sizes the structure the file is read into (the arguments of
  \<^verbatim>\<open>create_dummy_metadata\<close>, lines 71 to 79) and the one that interprets it (the
  arguments of \<^verbatim>\<open>fwupd_to_dict\<close>, lines 85 and 86).
\<close>

definition binparse_struct_config :: "binparse_args \<Rightarrow> int \<times> int" where
  "binparse_struct_config args =
     (case template args of
        Some t \<Rightarrow> (nb_fw_img (tpl_configs t), nb_fw_banks (tpl_configs t))
      | None \<Rightarrow> (nb_fw_imgs args, nb_banks args))"

definition binparse_decode_config :: "binparse_args \<Rightarrow> int \<times> int" where
  "binparse_decode_config args = (nb_fw_imgs args, nb_banks args)"

subsection \<open>The shell of \<^verbatim>\<open>src/shell.py\<close>\<close>

text \<open>
  \<^verbatim>\<open>str.split()\<close> splits at runs of white space and drops empty pieces;
  \<^verbatim>\<open>s.split(" ")[0]\<close> is the part of \<open>s\<close> before its first space.
\<close>

definition is_space :: "char \<Rightarrow> bool" where
  "is_space c \<longleftrightarrow> c \<in> set [CHR 0x09, CHR 0x0A, CHR 0x0B, CHR 0x0C, CHR 0x0D,
                            CHR 0x1C, CHR 0x1D, CHR 0x1E, CHR 0x1F, CHR 0x20]"

fun split_aux :: "string \<Rightarrow> string \<Rightarrow> string list" where
  "split_aux cur [] = (if cur = [] then [] else [rev cur])"
| "split_aux cur (c # cs) =
     (if is_space c then (if cur = [] then split_aux [] cs else rev cur # split_aux [] cs)
      else split_aux (c # cur) cs)"

definition py_split :: "string \<Rightarrow> string list" where
  "py_split s = split_aux [] s"

definition first_field :: "string \<Rightarrow> string" where
  "first_field s = takeWhile (\<lambda>c. c \<noteq> CHR 0x20) s"

text \<open>
  \<^verbatim>\<open>int(s)\<close> on a string: white space around is dropped, then an optional sign and
  decimal digits, where single underscores may stand between digits. Anything else is a
  \<^verbatim>\<open>ValueError\<close> (\<open>None\<close>). Characters are bytes here, so digits outside ASCII are not
  represented.
\<close>

definition digit_val :: "char \<Rightarrow> nat option" where
  "digit_val c =
     (if CHR ''0'' = c then Some 0 else if CHR ''1'' = c then Some 1
      else if CHR ''2'' = c then Some 2 else if CHR ''3'' = c then Some 3
      else if CHR ''4'' = c then Some 4 else if CHR ''5'' = c then Some 5
      else if CHR ''6'' = c then Some 6 else if CHR ''7'' = c then Some 7
      else if CHR ''8'' = c then Some 8 else if CHR ''9'' = c then Some 9
      else None)"

fun py_digits :: "nat \<Rightarrow> bool \<Rightarrow> string \<Rightarrow> nat option" where
  "py_digits acc after_digit [] = (if after_digit then Some acc else None)"
| "py_digits acc after_digit (c # cs) =
     (if c = CHR ''_'' then (if after_digit then py_digits acc False cs else None)
      else (case digit_val c of
              None \<Rightarrow> None
            | Some d \<Rightarrow> py_digits (10 * acc + d) True cs))"

definition py_strip :: "string \<Rightarrow> string" where
  "py_strip s = rev (dropWhile is_space (rev (dropWhile is_space s)))"

definition py_int :: "string \<Rightarrow> int option" where
  "py_int s =
     (case py_strip s of
        [] \<Rightarrow> None
      | c # cs \<Rightarrow>
          if c = CHR ''-'' then map_option (\<lambda>n. - int n) (py_digits 0 False cs)
          else if c = CHR ''+'' then map_option int (py_digits 0 False cs)
          else map_option int (py_digits 0 False (c # cs)))"

text \<open>
  The argument of a command is the rest of the command line (a string) or, when one
  command calls another, a list whose items are strings or already converted integers.
  The type names that the commands pass to \<^verbatim>\<open>expect_args\<close> are \<^verbatim>\<open>"fname"\<close>, \<^verbatim>\<open>"int"\<close> and
  \<^verbatim>\<open>"str"\<close>; \<^verbatim>\<open>"float"\<close> is never passed and is not represented.
\<close>

datatype arg = AStr string | AInt int

datatype inp = Line string | Args "arg list"

datatype argtype = TFname | TInt | TStr

text \<open>
  The shell object (\<^verbatim>\<open>self.metadata\<close>, \<^verbatim>\<open>self.fwupd\<close>) together with the files it reads
  and writes. Printing is left out.
\<close>

record 'fw shell =
  sh_metadata :: "model option"
  sh_fwupd :: "'fw option"
  files :: "string \<Rightarrow> byte list option"

definition isfile :: "'fw shell \<Rightarrow> arg \<Rightarrow> bool" where
  "isfile sh a = (case a of AStr name \<Rightarrow> files sh name \<noteq> None | AInt _ \<Rightarrow> False)"

definition to_int :: "arg \<Rightarrow> exn + arg" where
  "to_int a =
     (case a of
        AInt i \<Rightarrow> Inr (AInt i)
      | AStr s \<Rightarrow> (case py_int s of None \<Rightarrow> Inl ValueError | Some i \<Rightarrow> Inr (AInt i)))"

fun convert_args :: "'fw shell \<Rightarrow> nat \<Rightarrow> argtype list \<Rightarrow> arg list \<Rightarrow> exn + arg list" where
  "convert_args sh n [] args = Inr args"
| "convert_args sh n (TFname # ts) args =
     (if length args \<le> n then Inl IndexError
      else if \<not> isfile sh (args ! n) then Inl Exception
      else convert_args sh (Suc n) ts args)"
| "convert_args sh n (TInt # ts) args =
     (if length args \<le> n then Inl IndexError
      else (case to_int (args ! n) of
              Inl e \<Rightarrow> Inl e
            | Inr v \<Rightarrow> convert_args sh (Suc n) ts (args[n := v])))"
| "convert_args sh n (TStr # ts) args = convert_args sh (Suc n) ts args"

definition expect_args :: "'fw shell \<Rightarrow> inp \<Rightarrow> nat \<Rightarrow> argtype list \<Rightarrow> exn + arg list" where
  "expect_args sh i nbargs types =
     (let args = (case i of Line s \<Rightarrow> map AStr (py_split s) | Args l \<Rightarrow> l)
      in if length args < nbargs then Inl Exception
         else convert_args sh 0 types args)"

text \<open>
  A method of the shell returns the shell as it leaves it and the exception it raised,
  if any: an assignment made before a \<^verbatim>\<open>raise\<close> stays made.
\<close>

type_synonym 'fw outcome = "'fw shell \<times> exn option"

definition update_fwupd_struct :: "'fw core \<Rightarrow> 'fw shell \<Rightarrow> 'fw outcome" where
  "update_fwupd_struct c sh =
     (case sh_metadata sh of
        None \<Rightarrow> (sh, Some TypeError)
      | Some m \<Rightarrow>
          (case fwupd_from_dict c m of
             Inl e \<Rightarrow> (sh, Some e)
           | Inr fw \<Rightarrow> (sh\<lparr> sh_fwupd := Some fw \<rparr>, None)))"

definition arg_int :: "arg \<Rightarrow> int" where
  "arg_int a = (case a of AInt i \<Rightarrow> i | AStr _ \<Rightarrow> 0)"

definition do_set_active_index :: "'fw core \<Rightarrow> inp \<Rightarrow> 'fw shell \<Rightarrow> 'fw outcome" where
  "do_set_active_index c i sh =
     (case expect_args sh i 1 [TInt] of
        Inl e \<Rightarrow> (sh, Some e)
      | Inr args \<Rightarrow>
          (case sh_metadata sh of
             None \<Rightarrow> (sh, Some TypeError)
           | Some m \<Rightarrow>
               update_fwupd_struct c
                 (sh\<lparr> sh_metadata :=
                        Some (m\<lparr> metadata := (metadata m)\<lparr> active_index := arg_int (args ! 0) \<rparr> \<rparr>) \<rparr>)))"

definition do_set_previous_active_index :: "'fw core \<Rightarrow> inp \<Rightarrow> 'fw shell \<Rightarrow> 'fw outcome" where
  "do_set_previous_active_index c i sh =
     (case expect_args sh i 1 [TInt] of
        Inl e \<Rightarrow> (sh, Some e)
      | Inr args \<Rightarrow>
          (case sh_metadata sh of
             None \<Rightarrow> (sh, Some TypeError)
           | Some m \<Rightarrow>
               update_fwupd_struct c
                 (sh\<lparr> sh_metadata :=
                        Some (m\<lparr> metadata :=
                                   (metadata m)\<lparr> previous_active_index := arg_int (args ! 0) \<rparr> \<rparr>) \<rparr>)))"

definition and_then :: "'fw outcome \<Rightarrow> ('fw shell \<Rightarrow> 'fw outcome) \<Rightarrow> 'fw outcome" where
  "and_then r f = (case r of (sh, Some e) \<Rightarrow> (sh, Some e) | (sh, None) \<Rightarrow> f sh)"

definition do_load_json :: "'fw core \<Rightarrow> inp \<Rightarrow> 'fw shell \<Rightarrow> 'fw outcome" where
  "do_load_json c i sh =
     (case expect_args sh i 1 [TFname] of
        Inl e \<Rightarrow> (sh, Some e)
      | Inr args \<Rightarrow>
          (case args ! 0 of
             AInt _ \<Rightarrow> (sh, Some OSError)
           | AStr name \<Rightarrow>
               (case files sh name of
                  None \<Rightarrow> (sh, Some OSError)
                | Some content \<Rightarrow>
                    (case json_load c content of
                       Inl e \<Rightarrow> (sh, Some e)
                     | Inr j \<Rightarrow>
                         if \<not> check_metadata c j
                         then (sh\<lparr> sh_metadata := j \<rparr>, Some Exception)
                         else (sh\<lparr> sh_metadata := j \<rparr>, None)))))"

definition do_autodummy :: "'fw core \<Rightarrow> inp \<Rightarrow> 'fw shell \<Rightarrow> 'fw outcome" where
  "do_autodummy c i sh =
     (case expect_args sh i 2 [TInt, TInt] of
        Inl e \<Rightarrow> (sh, Some e)
      | Inr args \<Rightarrow>
          (case create_dummy_metadata c (arg_int (args ! 0)) (arg_int (args ! 1)) of
             Inl e \<Rightarrow> (sh, Some e)
           | Inr m \<Rightarrow> update_fwupd_struct c (sh\<lparr> sh_metadata := Some m \<rparr>)))"

definition do_load_binary :: "'fw core \<Rightarrow> inp \<Rightarrow> 'fw shell \<Rightarrow> 'fw outcome" where
  "do_load_binary c i sh =
     (case expect_args sh i 3 [TFname, TInt, TInt] of
        Inl e \<Rightarrow> (sh, Some e)
      | Inr args \<Rightarrow>
          and_then
            (if sh_metadata sh = None then do_autodummy c (Args (tl args)) sh else (sh, None))
            (\<lambda>sh1. and_then (update_fwupd_struct c sh1)
               (\<lambda>sh2.
                  case (args ! 0, sh_fwupd sh2) of
                    (AStr name, Some fw) \<Rightarrow>
                      (case files sh2 name of
                         None \<Rightarrow> (sh2, Some OSError)
                       | Some content \<Rightarrow>
                           let fw' = readinto c content fw;
                               sh3 = sh2\<lparr> sh_fwupd := Some fw' \<rparr>
                           in (case fwupd_to_dict c fw' (arg_int (args ! 1)) (arg_int (args ! 2))
                                      [] [] of
                                 Inl e \<Rightarrow> (sh3, Some e)
                               | Inr m \<Rightarrow> (sh3\<lparr> sh_metadata := Some m \<rparr>, None)))
                  | _ \<Rightarrow> (sh2, Some TypeError))))"

text \<open>
  \<^verbatim>\<open>do_save_json\<close> and \<^verbatim>\<open>do_save_binary\<close> call \<^verbatim>\<open>check_file_init\<close> and drop its result.
  \<^verbatim>\<open>open(name, "wb")\<close> empties the file before \<^verbatim>\<open>f.write(None)\<close> raises.
\<close>

definition do_save_json :: "'fw core \<Rightarrow> inp \<Rightarrow> 'fw shell \<Rightarrow> 'fw outcome" where
  "do_save_json c i sh =
     (case expect_args sh i 1 [TStr] of
        Inl e \<Rightarrow> (sh, Some e)
      | Inr args \<Rightarrow>
          (case args ! 0 of
             AInt _ \<Rightarrow> (sh, Some OSError)
           | AStr name \<Rightarrow>
               (sh\<lparr> files := (files sh)(name \<mapsto> json_dump c (sh_metadata sh)) \<rparr>, None)))"

definition do_save_binary :: "'fw core \<Rightarrow> inp \<Rightarrow> 'fw shell \<Rightarrow> 'fw outcome" where
  "do_save_binary c i sh =
     (case expect_args sh i 1 [TStr] of
        Inl e \<Rightarrow> (sh, Some e)
      | Inr args \<Rightarrow>
          (case args ! 0 of
             AInt _ \<Rightarrow> (sh, Some OSError)
           | AStr name \<Rightarrow>
               (case sh_fwupd sh of
                  None \<Rightarrow> (sh\<lparr> files := (files sh)(name \<mapsto> []) \<rparr>, Some TypeError)
                | Some fw \<Rightarrow>
                    (sh\<lparr> files := (files sh)(name \<mapsto> struct_bytes c fw) \<rparr>, None))))"

definition accepted_script_cmds :: "string list" where
  "accepted_script_cmds =
     [''exit'', ''test'', ''echo'',
      ''load'', ''load_binary'', ''load_json'',
      ''save'', ''save_binary'', ''save_json'',
      ''autodummy'',
      ''dump'',
      ''set_bank_policy'', ''set_active_index'',
      ''print_choices_uuids'', ''print_all_uuids'']"

text \<open>
  \<^verbatim>\<open>start_shell\<close>. \<open>onecmd\<close> is \<^verbatim>\<open>Cmd.onecmd\<close> of Python's library, which dispatches a line
  to the \<^verbatim>\<open>do_\<close> method of its first word, and \<open>cmdloop\<close> the interactive loop; both are
  parameters. \<open>first_word\<close> is \<^verbatim>\<open>cmd.split()[0]\<close>. \<open>script_step\<close> is the body of the
  \<^verbatim>\<open>try\<close> for one command, \<open>run_script\<close> the \<^verbatim>\<open>for\<close> loop up to the first exception.
\<close>

definition first_word :: "string \<Rightarrow> exn + string" where
  "first_word cmd = (case py_split cmd of [] \<Rightarrow> Inl IndexError | w # _ \<Rightarrow> Inr w)"

definition script_step ::
  "(string \<Rightarrow> 'fw shell \<Rightarrow> 'fw outcome) \<Rightarrow> bool \<Rightarrow> string \<Rightarrow> 'fw shell \<Rightarrow> 'fw outcome" where
  "script_step onecmd verbose cmd sh =
     (case (if verbose then first_word cmd else Inr []) of
        Inl e \<Rightarrow> (sh, Some e)
      | Inr _ \<Rightarrow>
          (case first_word cmd of
             Inl e \<Rightarrow> (sh, Some e)
           | Inr w \<Rightarrow>
               if w \<notin> set accepted_script_cmds then (sh, Some Exception)
               else onecmd cmd sh))"

fun run_script ::
  "(string \<Rightarrow> 'fw shell \<Rightarrow> 'fw outcome) \<Rightarrow> bool \<Rightarrow> string list \<Rightarrow> 'fw shell \<Rightarrow> 'fw outcome" where
  "run_script onecmd verbose [] sh = (sh, None)"
| "run_script onecmd verbose (cmd # cmds) sh =
     (case script_step onecmd verbose cmd sh of
        (sh', Some e) \<Rightarrow> (sh', Some e)
      | (sh', None) \<Rightarrow> run_script onecmd verbose cmds sh')"

definition load_files :: "'fw core \<Rightarrow> string option \<Rightarrow> string option \<Rightarrow> 'fw shell \<Rightarrow> 'fw outcome" where
  "load_files c jsonfile binfile_load sh =
     (case jsonfile of
        Some jf \<Rightarrow>
          and_then (do_load_json c (Line jf) sh)
            (\<lambda>sh1. case binfile_load of
                      Some bl \<Rightarrow>
                        and_then (do_load_binary c (Line bl) sh1)
                          (\<lambda>sh2. case (sh_metadata sh2, sh_fwupd sh2) of
                                    (Some m, Some fw) \<Rightarrow>
                                      (case validate_fwupd_and_dict c m fw of
                                         Inl e \<Rightarrow> (sh2, Some e)
                                       | Inr _ \<Rightarrow> (sh2, None))
                                  | _ \<Rightarrow> (sh2, Some TypeError))
                    | None \<Rightarrow> update_fwupd_struct c sh1)
      | None \<Rightarrow>
          (case binfile_load of
             Some bl \<Rightarrow> do_load_binary c (Line bl) sh
           | None \<Rightarrow> (sh, None)))"

definition save_files :: "'fw core \<Rightarrow> string option \<Rightarrow> string option \<Rightarrow> 'fw shell \<Rightarrow> 'fw outcome" where
  "save_files c jsonfile binfile_load sh =
     and_then (case jsonfile of Some jf \<Rightarrow> do_save_json c (Line jf) sh | None \<Rightarrow> (sh, None))
       (\<lambda>sh1. case binfile_load of
                 Some bl \<Rightarrow> do_save_binary c (Line (first_field bl)) sh1
               | None \<Rightarrow> (sh1, None))"

text \<open>
  The result of \<^verbatim>\<open>start_shell\<close>: the shell and the files as it leaves them, and the
  exception that leaves it, if any (\<open>None\<close> when it returns).
\<close>

definition start_shell ::
  "'fw core \<Rightarrow> (string \<Rightarrow> 'fw shell \<Rightarrow> 'fw outcome) \<Rightarrow> ('fw shell \<Rightarrow> 'fw outcome) \<Rightarrow>
   string list \<Rightarrow> bool \<Rightarrow> bool \<Rightarrow> string option \<Rightarrow> string option \<Rightarrow>
   (string \<Rightarrow> byte list option) \<Rightarrow> 'fw outcome" where
  "start_shell c onecmd cmdloop cmdlist keep verbose jsonfile binfile_load fs =
     and_then
       (load_files c jsonfile binfile_load
          \<lparr> sh_metadata = None, sh_fwupd = None, files = fs \<rparr>)
       (\<lambda>sh1. case run_script onecmd verbose cmdlist sh1 of
                 (sh2, Some e) \<Rightarrow> if is_Exception e then (sh2, None) else (sh2, Some e)
               | (sh2, None) \<Rightarrow>
                   and_then (if keep \<or> cmdlist = [] then cmdloop sh2 else (sh2, None))
                     (save_files c jsonfile binfile_load))"

text \<open>
  An instance of the parameters, to run the shell on concrete inputs: every file loads
  as one fixed two-bank model and the structure is a unit value.
\<close>

definition example_core :: "unit core" where
  "example_core =
     \<lparr> create_dummy_metadata = (\<lambda>ic bc. Inl Exception),
       check_metadata = (\<lambda>j. j \<noteq> None),
       fwupd_from_dict = (\<lambda>m. Inr ()),
       fwupd_to_dict = (\<lambda>fw ic bc ks ls. Inl Exception),
       validate_fwupd_and_dict = (\<lambda>m fw. Inr True),
       readinto = (\<lambda>bs fw. fw),
       struct_bytes = (\<lambda>fw. []),
       json_load = (\<lambda>bs. Inr (Some \<lparr> metadata = \<lparr> version = 1, active_index = 0,
                        previous_active_index = 0, img_entry = [] \<rparr>,
                      uuids = \<lparr> entries = [], locations = [] \<rparr>,
                      configs = \<lparr> nb_fw_img = 0, nb_fw_banks = 2 \<rparr> \<rparr>)),
       json_dump = (\<lambda>j. [1]) \<rparr>"

section \<open>The core, from the specification\<close>

subsection \<open>UUID Codec\<close>

text \<open>
  Modelled from the spec: the UUID codec of section 4.2 (\<^verbatim>\<open>src/uuid_t.py\<close> is missing).
  \<open>validate_uuid\<close> enforces the 8-4-4-4-12 pattern of hexadecimal digits of either case
  with hyphens at the fixed positions. \<open>uuid_encode\<close> reads the 32 digits as 16 bytes in
  textual order and stores the first three groups (4, 2 and 2 bytes) byte-swapped, the
  last 8 bytes as they are; text that is not valid fails with UUIDFormatError.
  \<open>uuid_decode\<close> undoes the swap and prints lower-case digits. \<open>normalize\<close> is the case
  normalisation: lower case.
\<close>

definition hex_digits :: string where
  "hex_digits = ''0123456789abcdef''"

definition lower :: "char \<Rightarrow> char" where
  "lower c =
     (case map_of (zip ''ABCDEFGHIJKLMNOPQRSTUVWXYZ'' ''abcdefghijklmnopqrstuvwxyz'') c of
        Some d \<Rightarrow> d
      | None \<Rightarrow> c)"

definition normalize :: "string \<Rightarrow> string" where
  "normalize u = map lower u"

definition hex_val :: "char \<Rightarrow> nat" where
  "hex_val c = length (takeWhile (\<lambda>d. d \<noteq> lower c) hex_digits)"

definition is_hex :: "char \<Rightarrow> bool" where
  "is_hex c \<longleftrightarrow> hex_val c < 16"

definition hex_char :: "nat \<Rightarrow> char" where
  "hex_char n = hex_digits ! n"

definition byte_of_hex :: "char \<Rightarrow> char \<Rightarrow> byte" where
  "byte_of_hex a b = of_nat (16 * hex_val a + hex_val b)"

definition hex_of_byte :: "byte \<Rightarrow> string" where
  "hex_of_byte b = [hex_char (unat b div 16), hex_char (unat b mod 16)]"

fun hex_to_bytes :: "string \<Rightarrow> byte list" where
  "hex_to_bytes (a # b # r) = byte_of_hex a b # hex_to_bytes r"
| "hex_to_bytes _ = []"

definition bytes_to_hex :: "byte list \<Rightarrow> string" where
  "bytes_to_hex bs = concat (map hex_of_byte bs)"

definition uuid_hex :: "string \<Rightarrow> string" where
  "uuid_hex u = take 8 u @ take 4 (drop 9 u) @ take 4 (drop 14 u) @ take 4 (drop 19 u)
                @ drop 24 u"

definition validate_uuid :: "string \<Rightarrow> bool" where
  "validate_uuid u \<longleftrightarrow>
     length u = 36 \<and> u ! 8 = CHR ''-'' \<and> u ! 13 = CHR ''-'' \<and> u ! 18 = CHR ''-''
     \<and> u ! 23 = CHR ''-'' \<and> list_all is_hex (uuid_hex u)"

definition guid_swap :: "byte list \<Rightarrow> byte list" where
  "guid_swap bs = rev (take 4 bs) @ rev (take 2 (drop 4 bs)) @ rev (take 2 (drop 6 bs))
                  @ drop 8 bs"

definition uuid_encode :: "string \<Rightarrow> error + byte list" where
  "uuid_encode u =
     (if validate_uuid u then Inr (guid_swap (hex_to_bytes (uuid_hex u)))
      else Inl UUIDFormatError)"

definition uuid_format :: "string \<Rightarrow> string" where
  "uuid_format h = take 8 h @ ''-'' @ take 4 (drop 8 h) @ ''-'' @ take 4 (drop 12 h) @ ''-''
                   @ take 4 (drop 16 h) @ ''-'' @ drop 20 h"

definition uuid_decode :: "byte list \<Rightarrow> error + string" where
  "uuid_decode bs =
     (if length bs \<noteq> 16 then Inl SizeMismatchError
      else Inr (uuid_format (bytes_to_hex (guid_swap bs))))"

subsection \<open>Checksum and little-endian integers\<close>

text \<open>
  Modelled from the spec: the checksum of the record (\<^verbatim>\<open>src/structs.py\<close> and
  \<^verbatim>\<open>src/utils.py\<close> are missing). The header field is named \<^verbatim>\<open>crc32\<close>: the checksum is
  CRC-32 as Python's \<^verbatim>\<open>zlib.crc32\<close> computes it (reflected polynomial \<^verbatim>\<open>0xEDB88320\<close>,
  initial value and final complement \<^verbatim>\<open>0xFFFFFFFF\<close>), one bit at a time. Multi-byte
  integers are little-endian (section 6).
\<close>

definition crc_poly :: u32 where
  "crc_poly = 0xEDB88320"

definition crc_bit :: "u32 \<Rightarrow> u32" where
  "crc_bit c = (if bit c 0 then drop_bit 1 c XOR crc_poly else drop_bit 1 c)"

definition crc_byte :: "u32 \<Rightarrow> byte \<Rightarrow> u32" where
  "crc_byte c b = (crc_bit ^^ 8) (c XOR ucast b)"

definition crc32 :: "byte list \<Rightarrow> u32" where
  "crc32 bs = foldl crc_byte 0xFFFFFFFF bs XOR 0xFFFFFFFF"

definition u32_bytes :: "u32 \<Rightarrow> byte list" where
  "u32_bytes w = [ucast w, ucast (drop_bit 8 w), ucast (drop_bit 16 w), ucast (drop_bit 24 w)]"

fun bytes_u32 :: "byte list \<Rightarrow> u32" where
  "bytes_u32 [a, b, c, d] =
     ucast a OR push_bit 8 (ucast b) OR push_bit 16 (ucast c) OR push_bit 24 (ucast d)"
| "bytes_u32 _ = 0"

subsection \<open>The binary record\<close>

text \<open>
  Modelled from the spec: the binary record of sections 3 and 6 (the ctypes structure of
  \<^verbatim>\<open>src/structs.py\<close> is missing). A header of four u32 (\<^verbatim>\<open>crc32\<close>, \<^verbatim>\<open>version\<close>,
  \<^verbatim>\<open>active_index\<close>, \<^verbatim>\<open>previous_active_index\<close>), then per image two 16-byte UUIDs and its
  bank records (a 16-byte UUID, \<^verbatim>\<open>accepted\<close> and \<^verbatim>\<open>reserved\<close> as u32). \<open>record_bytes\<close> lays
  the fields out in this order; \<open>read_record\<close> reads them back at the offsets of the
  layout.
\<close>

record fw_bank =
  b_img_uuid :: "byte list"
  b_accepted :: u32
  b_reserved :: u32

record fw_entry =
  e_img_type_uuid :: "byte list"
  e_location_uuid :: "byte list"
  e_bank_info :: "fw_bank list"

record fwupd =
  f_crc32 :: u32
  f_version :: u32
  f_active_index :: u32
  f_previous_active_index :: u32
  f_img_entry :: "fw_entry list"

definition bank_bytes :: "fw_bank \<Rightarrow> byte list" where
  "bank_bytes b = b_img_uuid b @ u32_bytes (b_accepted b) @ u32_bytes (b_reserved b)"

definition entry_bytes :: "fw_entry \<Rightarrow> byte list" where
  "entry_bytes e =
     e_img_type_uuid e @ e_location_uuid e @ concat (map bank_bytes (e_bank_info e))"

definition record_bytes :: "fwupd \<Rightarrow> byte list" where
  "record_bytes r =
     u32_bytes (f_crc32 r) @ u32_bytes (f_version r) @ u32_bytes (f_active_index r)
     @ u32_bytes (f_previous_active_index r) @ concat (map entry_bytes (f_img_entry r))"

definition slice :: "byte list \<Rightarrow> nat \<Rightarrow> nat \<Rightarrow> byte list" where
  "slice buf off n = take n (drop off buf)"

definition read_u32 :: "byte list \<Rightarrow> nat \<Rightarrow> u32" where
  "read_u32 buf off = bytes_u32 (slice buf off u32_size)"

definition read_bank :: "layout \<Rightarrow> byte list \<Rightarrow> fw_bank" where
  "read_bank L chunk =
     \<lparr> b_img_uuid = slice chunk (off_img_uuid L) uuid_size,
       b_accepted = read_u32 chunk (off_accepted L),
       b_reserved = read_u32 chunk (off_reserved L) \<rparr>"

definition read_entry :: "layout \<Rightarrow> byte list \<Rightarrow> fw_entry" where
  "read_entry L chunk =
     \<lparr> e_img_type_uuid = slice chunk (off_img_type_uuid L) uuid_size,
       e_location_uuid = slice chunk (off_location_uuid L) uuid_size,
       e_bank_info =
         map (\<lambda>j. read_bank L (slice chunk (banks_offset L + j * bank_stride L) (bank_stride L)))
           [0..<bank_count L] \<rparr>"

definition read_record :: "layout \<Rightarrow> byte list \<Rightarrow> fwupd" where
  "read_record L buf =
     \<lparr> f_crc32 = read_u32 buf (off_crc32 L),
       f_version = read_u32 buf (off_version L),
       f_active_index = read_u32 buf (off_active_index L),
       f_previous_active_index = read_u32 buf (off_previous_active_index L),
       f_img_entry =
         map (\<lambda>i. read_entry L (slice buf (entries_offset L + i * entry_stride L) (entry_stride L)))
           [0..<image_count L] \<rparr>"

definition bank_ok :: "fw_bank \<Rightarrow> bool" where
  "bank_ok b \<longleftrightarrow> length (b_img_uuid b) = uuid_size"

definition entry_ok :: "layout \<Rightarrow> fw_entry \<Rightarrow> bool" where
  "entry_ok L e \<longleftrightarrow>
     length (e_img_type_uuid e) = uuid_size \<and> length (e_location_uuid e) = uuid_size
     \<and> length (e_bank_info e) = bank_count L \<and> list_all bank_ok (e_bank_info e)"

definition record_ok :: "layout \<Rightarrow> fwupd \<Rightarrow> bool" where
  "record_ok L r \<longleftrightarrow>
     length (f_img_entry r) = image_count L \<and> list_all (entry_ok L) (f_img_entry r)"

definition zero_crc_slot :: "layout \<Rightarrow> byte list \<Rightarrow> byte list" where
  "zero_crc_slot L buf =
     take (off_crc32 L) buf @ u32_bytes 0 @ drop (off_crc32 L + u32_size) buf"

text \<open>
  The keys that decoding synthesises. The binary record carries no names, and without a
  template every UUID gets a placeholder key made from its position: \<^verbatim>\<open>img_<i>\<close> for
  image \<open>i\<close>, \<^verbatim>\<open>img_<i>_bank_<j>\<close> for its bank \<open>j\<close> (the form \<^verbatim>\<open><image>_bank_<n>\<close> of section
  6, which \<^verbatim>\<open>src/shell.py\<close> also builds) and \<^verbatim>\<open>loc_<i>\<close> for its location. Numbers are
  written in decimal, as \<^verbatim>\<open>str\<close> does.
\<close>

definition digit_char :: "nat \<Rightarrow> char" where
  "digit_char n = ''0123456789'' ! n"

fun string_of_nat :: "nat \<Rightarrow> string" where
  "string_of_nat n =
     (if n < 10 then [digit_char n] else string_of_nat (n div 10) @ [digit_char (n mod 10)])"

definition image_key :: "nat \<Rightarrow> string" where
  "image_key i = ''img_'' @ string_of_nat i"

definition bank_key :: "nat \<Rightarrow> nat \<Rightarrow> string" where
  "bank_key i j = image_key i @ ''_bank_'' @ string_of_nat j"

definition location_key :: "nat \<Rightarrow> string" where
  "location_key i = ''loc_'' @ string_of_nat i"

section \<open>Properties\<close>

lemma calc_layout_Inr:
  assumes "1 \<le> ic" "1 \<le> bc"
  shows "calc_layout ic bc =
    Inr \<lparr> image_count = nat ic, bank_count = nat bc,
          off_crc32 = 0, off_version = 4, off_active_index = 8,
          off_previous_active_index = 12, entries_offset = 16,
          off_img_type_uuid = 0, off_location_uuid = 16,
          banks_offset = 32, off_img_uuid = 0, off_accepted = 16,
          off_reserved = 20, bank_stride = 24, entry_stride = 32 + nat bc * 24,
          total_size = 16 + nat ic * (32 + nat bc * 24) \<rparr>"
  using assms by (simp add: calc_layout_def u32_size_def uuid_size_def Let_def)

text \<open>
  C8. For counts of at least one the calculator succeeds and the total record size is
  16 + image_count * (32 + bank_count * 24); the result is a function of the two counts
  alone. For a count below one it fails with ConfigError.
\<close>

theorem C8_layout_total_size:
  "(1 \<le> ic \<and> 1 \<le> bc \<longrightarrow>
      (\<exists>L. calc_layout ic bc = Inr L \<and> int (total_size L) = 16 + ic * (32 + bc * 24)))
   \<and> (ic \<le> 0 \<or> bc \<le> 0 \<longrightarrow> calc_layout ic bc = Inl ConfigError)"
proof (intro conjI impI)
  assume h: "1 \<le> ic \<and> 1 \<le> bc"
  then have "calc_layout ic bc = Inr \<lparr> image_count = nat ic, bank_count = nat bc,
          off_crc32 = 0, off_version = 4, off_active_index = 8,
          off_previous_active_index = 12, entries_offset = 16,
          off_img_type_uuid = 0, off_location_uuid = 16,
          banks_offset = 32, off_img_uuid = 0, off_accepted = 16,
          off_reserved = 20, bank_stride = 24, entry_stride = 32 + nat bc * 24,
          total_size = 16 + nat ic * (32 + nat bc * 24) \<rparr>"
    by (simp add: calc_layout_Inr)
  moreover from h have "int (16 + nat ic * (32 + nat bc * 24)) = 16 + ic * (32 + bc * 24)"
    by simp
  ultimately show "\<exists>L. calc_layout ic bc = Inr L \<and> int (total_size L) = 16 + ic * (32 + bc * 24)"
    by simp
next
  assume "ic \<le> 0 \<or> bc \<le> 0"
  then show "calc_layout ic bc = Inl ConfigError"
    by (auto simp: calc_layout_def)
qed

theorem C8_layout_total_size_witness:
  "(\<exists>L. calc_layout 1 2 = Inr L \<and> int (total_size L) = 96)
   \<and> calc_layout 0 2 = Inl ConfigError"
  using C8_layout_total_size [of 1 2] C8_layout_total_size [of 0 2] by simp

subsection \<open>The configurations of \<^verbatim>\<open>cli_binparse\<close>\<close>

lemma cli_binparse_no_template:
  "template args = None \<Longrightarrow> binparse_struct_config args = binparse_decode_config args"
  by (simp add: binparse_struct_config_def binparse_decode_config_def)

text \<open>
  C4. With a template whose configs are (2, 2) and the command line's defaults (1, 2),
  the structure the file is read into is built for (2, 2), the template's configs, while
  \<^verbatim>\<open>fwupd_to_dict\<close> is given (1, 2), the command line's values: the two configurations
  differ, whatever the missing functions do.
\<close>

theorem C4_binparse_template_config_mismatch:
  "binparse_struct_config
     \<lparr> template = Some \<lparr> tpl_configs = \<lparr> nb_fw_img = 2, nb_fw_banks = 2 \<rparr>, tpl_uuids = u \<rparr>,
       nb_fw_imgs = 1, nb_banks = 2, binfile = f \<rparr> = (2, 2)
   \<and> binparse_decode_config
     \<lparr> template = Some \<lparr> tpl_configs = \<lparr> nb_fw_img = 2, nb_fw_banks = 2 \<rparr>, tpl_uuids = u \<rparr>,
       nb_fw_imgs = 1, nb_banks = 2, binfile = f \<rparr> = (1, 2)
   \<and> cli_binparse c
     \<lparr> template = Some \<lparr> tpl_configs = \<lparr> nb_fw_img = 2, nb_fw_banks = 2 \<rparr>, tpl_uuids = u \<rparr>,
       nb_fw_imgs = 1, nb_banks = 2, binfile = f \<rparr> =
     (case create_dummy_metadata c 2 2 of
        Inl e \<Rightarrow> Inl e
      | Inr d \<Rightarrow>
          if \<not> check_metadata c (Some d) then Inl AssertionError
          else (case fwupd_from_dict c d of
                  Inl e \<Rightarrow> Inl e
                | Inr fw \<Rightarrow>
                    fwupd_to_dict c (readinto c f fw) 1 2 (map fst (entries u)) (locations u)))"
  by (simp add: binparse_struct_config_def binparse_decode_config_def cli_binparse_def
      split: sum.splits)

subsection \<open>The shell: setting the indices\<close>

lemma update_fwupd_struct_metadata:
  "sh_metadata (fst (update_fwupd_struct c sh)) = sh_metadata sh"
  by (simp add: update_fwupd_struct_def split: option.splits sum.splits)

lemma update_fwupd_struct_files:
  "files (fst (update_fwupd_struct c sh)) = files sh"
  by (simp add: update_fwupd_struct_def split: option.splits sum.splits)

lemma convert_args_length:
  "convert_args sh n ts args = Inr args' \<Longrightarrow> length args' = length args"
  by (induction sh n ts args rule: convert_args.induct) (auto split: if_splits sum.splits)

lemma expect_args_int_shape:
  assumes "expect_args sh i 1 [TInt] = Inr args"
  shows "\<exists>n rest. args = AInt n # rest"
proof -
  define l where "l = (case i of Line s \<Rightarrow> map AStr (py_split s) | Args l \<Rightarrow> l)"
  from assms have len: "l \<noteq> []" and c: "convert_args sh 0 [TInt] l = Inr args"
    unfolding expect_args_def Let_def l_def[symmetric] by (auto split: if_splits)
  from len obtain a rest where lr: "l = a # rest" by (cases l) auto
  from c lr obtain v where "to_int a = Inr v" "args = v # rest"
    by (auto split: sum.splits)
  moreover from this obtain n where "v = AInt n"
    by (auto simp: to_int_def split: arg.splits option.splits)
  ultimately show ?thesis by blast
qed


lemma do_set_active_index_metadata:
  assumes "sh_metadata sh = Some m" and "expect_args sh i 1 [TInt] = Inr (AInt n # rest)"
  shows "sh_metadata (fst (do_set_active_index c i sh)) =
           Some (m\<lparr> metadata := (metadata m)\<lparr> active_index := n \<rparr> \<rparr>)"
  using assms
  by (simp add: do_set_active_index_def update_fwupd_struct_metadata arg_int_def)

lemma do_set_previous_active_index_metadata:
  assumes "sh_metadata sh = Some m" and "expect_args sh i 1 [TInt] = Inr (AInt n # rest)"
  shows "sh_metadata (fst (do_set_previous_active_index c i sh)) =
           Some (m\<lparr> metadata := (metadata m)\<lparr> previous_active_index := n \<rparr> \<rparr>)"
  using assms
  by (simp add: do_set_previous_active_index_def update_fwupd_struct_metadata arg_int_def)

text \<open>
  C5 (amended). \<^verbatim>\<open>set_active_index\<close> and \<^verbatim>\<open>set_previous_active_index\<close> store their
  integer argument in the model without validating it: when the model is loaded and its
  indices are in range, the index is the argument afterwards, whatever it is, and the
  indices are in range afterwards exactly when the argument lies in [0, bank_count).
\<close>

theorem C5_set_index_stores_argument:
  assumes "sh_metadata sh = Some m" and "indices_in_range m"
    and "expect_args sh i 1 [TInt] = Inr (AInt n # rest)"
  shows "sh_metadata (fst (do_set_active_index c i sh)) =
           Some (m\<lparr> metadata := (metadata m)\<lparr> active_index := n \<rparr> \<rparr>)
       \<and> sh_metadata (fst (do_set_previous_active_index c i sh)) =
           Some (m\<lparr> metadata := (metadata m)\<lparr> previous_active_index := n \<rparr> \<rparr>)
       \<and> (indices_in_range (m\<lparr> metadata := (metadata m)\<lparr> active_index := n \<rparr> \<rparr>)
            \<longleftrightarrow> 0 \<le> n \<and> n < nb_fw_banks (configs m))
       \<and> (indices_in_range (m\<lparr> metadata := (metadata m)\<lparr> previous_active_index := n \<rparr> \<rparr>)
            \<longleftrightarrow> 0 \<le> n \<and> n < nb_fw_banks (configs m))"
  using assms
  by (simp add: do_set_active_index_metadata do_set_previous_active_index_metadata
      indices_in_range_def)

lemma expect_args_line_5:
  "expect_args sh (Line ''5'') 1 [TInt] = Inr [AInt 5]"
  by (simp add: expect_args_def py_split_def is_space_def to_int_def py_int_def py_strip_def
      digit_val_def)

text \<open>
  On a two-bank model with both indices 0, \<^verbatim>\<open>set_active_index 5\<close> leaves active_index = 5,
  outside [0, 2), whatever the missing functions do.
\<close>

theorem C5_set_index_counterexample:
  "\<forall>c :: unit core.
     indices_in_range \<lparr> metadata = \<lparr> version = 1, active_index = 0,
                        previous_active_index = 0, img_entry = [] \<rparr>,
                      uuids = \<lparr> entries = [], locations = [] \<rparr>,
                      configs = \<lparr> nb_fw_img = 0, nb_fw_banks = 2 \<rparr> \<rparr>
   \<and> sh_metadata (fst (do_set_active_index c (Line ''5'')
         \<lparr> sh_metadata = Some \<lparr> metadata = \<lparr> version = 1, active_index = 0,
                        previous_active_index = 0, img_entry = [] \<rparr>,
                      uuids = \<lparr> entries = [], locations = [] \<rparr>,
                      configs = \<lparr> nb_fw_img = 0, nb_fw_banks = 2 \<rparr> \<rparr>,
           sh_fwupd = None, files = Map.empty \<rparr>)) =
       Some \<lparr> metadata = \<lparr> version = 1, active_index = 5,
                        previous_active_index = 0, img_entry = [] \<rparr>,
                      uuids = \<lparr> entries = [], locations = [] \<rparr>,
                      configs = \<lparr> nb_fw_img = 0, nb_fw_banks = 2 \<rparr> \<rparr>
   \<and> \<not> indices_in_range \<lparr> metadata = \<lparr> version = 1, active_index = 5,
                        previous_active_index = 0, img_entry = [] \<rparr>,
                      uuids = \<lparr> entries = [], locations = [] \<rparr>,
                      configs = \<lparr> nb_fw_img = 0, nb_fw_banks = 2 \<rparr> \<rparr>"
proof (intro allI conjI)
  fix c :: "unit core"
  let ?m = "\<lparr> metadata = \<lparr> version = 1, active_index = 0,
                        previous_active_index = 0, img_entry = [] \<rparr>,
                      uuids = \<lparr> entries = [], locations = [] \<rparr>,
                      configs = \<lparr> nb_fw_img = 0, nb_fw_banks = 2 \<rparr> \<rparr>"
  let ?sh = "\<lparr> sh_metadata = Some ?m, sh_fwupd = None :: unit option, files = Map.empty \<rparr>"
  show "indices_in_range ?m" by (simp add: indices_in_range_def)
  have "sh_metadata ?sh = Some ?m" by simp
  from do_set_active_index_metadata [OF this expect_args_line_5, of c]
  show "sh_metadata (fst (do_set_active_index c (Line ''5'') ?sh)) =
       Some \<lparr> metadata = \<lparr> version = 1, active_index = 5,
                        previous_active_index = 0, img_entry = [] \<rparr>,
                      uuids = \<lparr> entries = [], locations = [] \<rparr>,
                      configs = \<lparr> nb_fw_img = 0, nb_fw_banks = 2 \<rparr> \<rparr>"
    by simp
  show "\<not> indices_in_range \<lparr> metadata = \<lparr> version = 1, active_index = 5,
                        previous_active_index = 0, img_entry = [] \<rparr>,
                      uuids = \<lparr> entries = [], locations = [] \<rparr>,
                      configs = \<lparr> nb_fw_img = 0, nb_fw_banks = 2 \<rparr> \<rparr>"
    by (simp add: indices_in_range_def)
qed

lemma expect_args_line_1:
  "expect_args sh (Line ''1'') 1 [TInt] = Inr [AInt 1]"
  by (simp add: expect_args_def py_split_def is_space_def to_int_def py_int_def py_strip_def
      digit_val_def)

theorem C5_set_index_stores_argument_witness:
  "\<forall>c :: unit core.
     sh_metadata (fst (do_set_active_index c (Line ''1'')
         \<lparr> sh_metadata = Some \<lparr> metadata = \<lparr> version = 1, active_index = 0,
                        previous_active_index = 0, img_entry = [] \<rparr>,
                      uuids = \<lparr> entries = [], locations = [] \<rparr>,
                      configs = \<lparr> nb_fw_img = 0, nb_fw_banks = 2 \<rparr> \<rparr>,
           sh_fwupd = None, files = Map.empty \<rparr>)) =
       Some \<lparr> metadata = \<lparr> version = 1, active_index = 1,
                        previous_active_index = 0, img_entry = [] \<rparr>,
                      uuids = \<lparr> entries = [], locations = [] \<rparr>,
                      configs = \<lparr> nb_fw_img = 0, nb_fw_banks = 2 \<rparr> \<rparr>
   \<and> indices_in_range \<lparr> metadata = \<lparr> version = 1, active_index = 1,
                        previous_active_index = 0, img_entry = [] \<rparr>,
                      uuids = \<lparr> entries = [], locations = [] \<rparr>,
                      configs = \<lparr> nb_fw_img = 0, nb_fw_banks = 2 \<rparr> \<rparr>"
proof (intro allI)
  fix c :: "unit core"
  let ?m = "\<lparr> metadata = \<lparr> version = 1, active_index = 0,
                        previous_active_index = 0, img_entry = [] \<rparr>,
                      uuids = \<lparr> entries = [], locations = [] \<rparr>,
                      configs = \<lparr> nb_fw_img = 0, nb_fw_banks = 2 \<rparr> \<rparr>"
  let ?sh = "\<lparr> sh_metadata = Some ?m, sh_fwupd = None :: unit option, files = Map.empty \<rparr>"
  have a: "sh_metadata ?sh = Some ?m" by simp
  have b: "indices_in_range ?m" by (simp add: indices_in_range_def)
  from C5_set_index_stores_argument [OF a b expect_args_line_1, of c]
  show "sh_metadata (fst (do_set_active_index c (Line ''1'') ?sh)) =
       Some \<lparr> metadata = \<lparr> version = 1, active_index = 1,
                        previous_active_index = 0, img_entry = [] \<rparr>,
                      uuids = \<lparr> entries = [], locations = [] \<rparr>,
                      configs = \<lparr> nb_fw_img = 0, nb_fw_banks = 2 \<rparr> \<rparr>
   \<and> indices_in_range \<lparr> metadata = \<lparr> version = 1, active_index = 1,
                        previous_active_index = 0, img_entry = [] \<rparr>,
                      uuids = \<lparr> entries = [], locations = [] \<rparr>,
                      configs = \<lparr> nb_fw_img = 0, nb_fw_banks = 2 \<rparr> \<rparr>"
    by simp
qed


subsection \<open>The shell: a script that fails\<close>

lemma run_script_append:
  "run_script onecmd verbose pre sh1 = (sh2, None) \<Longrightarrow>
   run_script onecmd verbose (pre @ cmds) sh1 = run_script onecmd verbose cmds sh2"
  by (induction pre arbitrary: sh1) (auto split: prod.splits option.splits)

lemma run_script_stops:
  assumes "run_script onecmd verbose pre sh1 = (sh2, None)"
    and "script_step onecmd verbose cmd sh2 = (sh3, Some e)"
  shows "run_script onecmd verbose (pre @ cmd # rest) sh1 = (sh3, Some e)"
  using assms by (simp add: run_script_append)

lemma script_step_not_accepted:
  assumes "first_word cmd = Inr w" and "w \<notin> set accepted_script_cmds"
  shows "script_step onecmd verbose cmd sh = (sh, Some Exception)"
  using assms by (simp add: script_step_def)

lemma script_step_empty:
  assumes "py_split cmd = []"
  shows "script_step onecmd verbose cmd sh = (sh, Some IndexError)"
  using assms by (simp add: script_step_def first_word_def)

text \<open>
  C10. When the files have loaded, the commands before \<open>cmd\<close> have run without an
  exception and \<open>cmd\<close> raises, \<^verbatim>\<open>start_shell\<close> ends with the shell and the files as the
  failing command left them: no later command runs, the interactive loop is not entered
  and neither file is saved. It returns when the exception derives from \<^verbatim>\<open>Exception\<close>.
  A command whose first word is not an accepted script command raises such an
  exception without being run.
\<close>

theorem C10_failed_script_skips_save:
  "(load_files c jsonfile binfile_load
        \<lparr> sh_metadata = None, sh_fwupd = None, files = fs \<rparr> = (sh1, None)
    \<and> run_script onecmd verbose pre sh1 = (sh2, None)
    \<and> script_step onecmd verbose cmd sh2 = (sh3, Some e)
    \<longrightarrow> start_shell c onecmd cmdloop (pre @ cmd # rest) keep verbose jsonfile binfile_load fs
          = (sh3, if is_Exception e then None else Some e))
   \<and> (first_word cmd = Inr w \<and> w \<notin> set accepted_script_cmds
    \<longrightarrow> script_step onecmd verbose cmd sh2 = (sh2, Some Exception))"
  by (simp add: start_shell_def and_then_def run_script_stops script_step_not_accepted)

lemma start_shell_success:
  assumes "load_files c jsonfile binfile_load
        \<lparr> sh_metadata = None, sh_fwupd = None, files = fs \<rparr> = (sh1, None)"
    and "run_script onecmd verbose cmds sh1 = (sh2, None)"
    and "cmds \<noteq> []"
  shows "start_shell c onecmd cmdloop cmds False verbose jsonfile binfile_load fs
          = save_files c jsonfile binfile_load sh2"
  using assms by (simp add: start_shell_def and_then_def)


theorem C10_failed_script_skips_save_witness:
  "start_shell example_core (\<lambda>cmd sh. (sh, None)) (\<lambda>sh. (sh, None))
     [''echo hi'', ''frobnicate'', ''save_json out.json''] False False
     (Some ''m.json'') None [''m.json'' \<mapsto> [0]]
   = (\<lparr> sh_metadata = Some \<lparr> metadata = \<lparr> version = 1, active_index = 0,
                        previous_active_index = 0, img_entry = [] \<rparr>,
                      uuids = \<lparr> entries = [], locations = [] \<rparr>,
                      configs = \<lparr> nb_fw_img = 0, nb_fw_banks = 2 \<rparr> \<rparr>,
        sh_fwupd = Some (), files = [''m.json'' \<mapsto> [0]] \<rparr>, None)"
proof -
  let ?m = "\<lparr> metadata = \<lparr> version = 1, active_index = 0,
                        previous_active_index = 0, img_entry = [] \<rparr>,
                      uuids = \<lparr> entries = [], locations = [] \<rparr>,
                      configs = \<lparr> nb_fw_img = 0, nb_fw_banks = 2 \<rparr> \<rparr>"
  let ?fs = "[''m.json'' \<mapsto> [0 :: byte]]"
  let ?sh1 = "\<lparr> sh_metadata = Some ?m, sh_fwupd = Some (), files = ?fs \<rparr>"
  let ?onecmd = "\<lambda>(cmd :: string) (sh :: unit shell). (sh, None :: exn option)"
  have L: "load_files example_core (Some ''m.json'') None
             \<lparr> sh_metadata = None, sh_fwupd = None, files = ?fs \<rparr> = (?sh1, None)"
    by (simp add: load_files_def do_load_json_def expect_args_def py_split_def is_space_def
        isfile_def example_core_def and_then_def update_fwupd_struct_def)
  have R: "run_script ?onecmd False [''echo hi''] ?sh1 = (?sh1, None)"
    by (simp add: script_step_def first_word_def py_split_def is_space_def
        accepted_script_cmds_def)
  have S: "script_step ?onecmd False ''frobnicate'' ?sh1 = (?sh1, Some Exception)"
    by (simp add: script_step_def first_word_def py_split_def is_space_def
        accepted_script_cmds_def)
  from C10_failed_script_skips_save [THEN conjunct1, THEN mp, OF conjI [OF L conjI [OF R S]]]
  show ?thesis by simp
qed

subsection \<open>UUID codec\<close>

lemma less16: "(n::nat) < 16 \<longleftrightarrow> n \<in> {0,1,2,3,4,5,6,7,8,9,10,11,12,13,14,15}"
  by (simp only: insert_iff empty_iff) presburger


lemma less16E:
  assumes "(n::nat) < 16"
  obtains "n = 0" | "n = 1" | "n = 2" | "n = 3" | "n = 4" | "n = 5" | "n = 6" | "n = 7"
    | "n = 8" | "n = 9" | "n = 10" | "n = 11" | "n = 12" | "n = 13" | "n = 14" | "n = 15"
  using assms by (simp only: less16 insert_iff empty_iff) blast


lemma lower_hex_char: "n < 16 \<Longrightarrow> lower (hex_char n) = hex_char n"
  by (erule less16E) (simp_all add: lower_def hex_char_def hex_digits_def)

lemma hex_val_hex_char: "n < 16 \<Longrightarrow> hex_val (hex_char n) = n"
  by (erule less16E) (simp_all add: hex_val_def lower_def hex_char_def hex_digits_def)

lemma hex_char_hex_val: "is_hex c \<Longrightarrow> hex_char (hex_val c) = lower c"
proof -
  assume "is_hex c"
  then have "length (takeWhile (\<lambda>d. d \<noteq> lower c) hex_digits) < length hex_digits"
    by (simp add: is_hex_def hex_val_def hex_digits_def)
  from nth_length_takeWhile [OF this] show ?thesis
    by (simp add: hex_char_def hex_val_def)
qed

lemma is_hex_hex_char: "n < 16 \<Longrightarrow> is_hex (hex_char n)"
  by (simp add: is_hex_def hex_val_hex_char)

lemma hex_of_byte_of_hex:
  assumes "is_hex a" "is_hex b"
  shows "hex_of_byte (byte_of_hex a b) = [lower a, lower b]"
proof -
  from assms have a: "hex_val a < 16" and b: "hex_val b < 16" by (simp_all add: is_hex_def)
  then have "16 * hex_val a + hex_val b < 256" by simp
  then have u: "unat (of_nat (16 * hex_val a + hex_val b) :: byte) = 16 * hex_val a + hex_val b"
    by (simp only: unat_of_nat) simp
  from a b show ?thesis
    by (simp only: hex_of_byte_def byte_of_hex_def u) (simp add: hex_char_hex_val assms)
qed

lemma byte_of_hex_of_byte:
  "byte_of_hex (hex_char (unat b div 16)) (hex_char (unat b mod 16)) = b"
proof -
  have "unat b < 256" using unsigned_less [of b, where ?'a = nat] by simp
  then have "unat b div 16 < 16" by simp
  then show ?thesis
    by (simp add: byte_of_hex_def hex_val_hex_char)
qed

lemma bytes_to_hex_to_bytes:
  "list_all is_hex h \<Longrightarrow> even (length h) \<Longrightarrow> bytes_to_hex (hex_to_bytes h) = map lower h"
  by (induction h rule: hex_to_bytes.induct)
    (simp_all add: bytes_to_hex_def hex_of_byte_of_hex)

lemma length_hex_to_bytes: "length (hex_to_bytes h) = length h div 2"
  by (induction h rule: hex_to_bytes.induct) simp_all

lemma hex_to_bytes_to_hex: "hex_to_bytes (bytes_to_hex bs) = bs"
  by (induction bs) (simp_all add: bytes_to_hex_def hex_of_byte_def byte_of_hex_of_byte)

lemma length_bytes_to_hex: "length (bytes_to_hex bs) = 2 * length bs"
  by (induction bs) (simp_all add: bytes_to_hex_def hex_of_byte_def)

lemma is_hex_bytes_to_hex: "list_all is_hex (bytes_to_hex bs)"
proof (induction bs)
  case Nil
  then show ?case by (simp add: bytes_to_hex_def)
next
  case (Cons b bs)
  have "unat b < 256" using unsigned_less [of b, where ?'a = nat] by simp
  then have "unat b div 16 < 16" by simp
  with Cons show ?case
    by (simp add: bytes_to_hex_def hex_of_byte_def is_hex_hex_char)
qed

lemma lower_bytes_to_hex: "map lower (bytes_to_hex bs) = bytes_to_hex bs"
proof (induction bs)
  case Nil
  then show ?case by (simp add: bytes_to_hex_def)
next
  case (Cons b bs)
  have "unat b < 256" using unsigned_less [of b, where ?'a = nat] by simp
  then have "unat b div 16 < 16" by simp
  with Cons show ?case
    by (simp add: bytes_to_hex_def hex_of_byte_def lower_hex_char)
qed


lemma guid_swap_parts:
  "length a = 4 \<Longrightarrow> length b = 2 \<Longrightarrow> length c = 2 \<Longrightarrow>
   guid_swap (a @ b @ c @ d) = rev a @ rev b @ rev c @ d"
  by (simp add: guid_swap_def)

lemma split_guid:
  assumes "8 \<le> length bs"
  shows "bs = take 4 bs @ take 2 (drop 4 bs) @ take 2 (drop 6 bs) @ drop 8 bs"
proof -
  have "take 4 bs @ take 2 (drop 4 bs) = take 6 bs"
    using take_add [of 4 2 bs] by simp
  moreover have "take 6 bs @ take 2 (drop 6 bs) = take 8 bs"
    using take_add [of 6 2 bs] by simp
  ultimately have "take 4 bs @ take 2 (drop 4 bs) @ take 2 (drop 6 bs) @ drop 8 bs
      = take 8 bs @ drop 8 bs"
    by (metis append.assoc)
  then show ?thesis by simp
qed

lemma guid_swap_involution:
  assumes "8 \<le> length bs"
  shows "guid_swap (guid_swap bs) = bs"
proof -
  let ?a = "take 4 bs" and ?b = "take 2 (drop 4 bs)" and ?c = "take 2 (drop 6 bs)"
  let ?d = "drop 8 bs"
  from assms have l: "length ?a = 4" "length ?b = 2" "length ?c = 2" by simp_all
  have "guid_swap bs = rev ?a @ rev ?b @ rev ?c @ ?d" by (simp add: guid_swap_def)
  then have "guid_swap (guid_swap bs) = ?a @ ?b @ ?c @ ?d"
    using l by (simp add: guid_swap_parts)
  with split_guid [OF assms] show ?thesis by simp
qed

lemma length_guid_swap: "8 \<le> length bs \<Longrightarrow> length (guid_swap bs) = length bs"
  by (simp add: guid_swap_def)

lemma lower_dash: "lower (CHR ''-'') = CHR ''-''"
  by (simp add: lower_def)

lemma uuid_text_split:
  assumes "length u = 36"
  shows "u = take 8 u @ u ! 8 # take 4 (drop 9 u) @ u ! 13 # take 4 (drop 14 u)
             @ u ! 18 # take 4 (drop 19 u) @ u ! 23 # drop 24 u"
proof -
  have a: "u = take 8 u @ u ! 8 # drop 9 u"
    using id_take_nth_drop [of 8 u] assms by simp
  have b: "drop 9 u = take 4 (drop 9 u) @ u ! 13 # drop 14 u"
    using id_take_nth_drop [of 4 "drop 9 u"] assms by simp
  have c: "drop 14 u = take 4 (drop 14 u) @ u ! 18 # drop 19 u"
    using id_take_nth_drop [of 4 "drop 14 u"] assms by simp
  have d: "drop 19 u = take 4 (drop 19 u) @ u ! 23 # drop 24 u"
    using id_take_nth_drop [of 4 "drop 19 u"] assms by simp
  show ?thesis
    using a b c d by metis
qed


lemma uuid_format_parts:
  "length g1 = 8 \<Longrightarrow> length g2 = 4 \<Longrightarrow> length g3 = 4 \<Longrightarrow> length g4 = 4 \<Longrightarrow>
   uuid_format (g1 @ g2 @ g3 @ g4 @ g5) =
     g1 @ CHR ''-'' # g2 @ CHR ''-'' # g3 @ CHR ''-'' # g4 @ CHR ''-'' # g5"
  by (simp add: uuid_format_def)

lemma uuid_hex_parts:
  "length g1 = 8 \<Longrightarrow> length g2 = 4 \<Longrightarrow> length g3 = 4 \<Longrightarrow> length g4 = 4 \<Longrightarrow>
   length g5 = 12 \<Longrightarrow>
   uuid_hex (g1 @ a # g2 @ b # g3 @ c # g4 @ d # g5) = g1 @ g2 @ g3 @ g4 @ g5"
  by (simp add: uuid_hex_def)

lemma uuid_format_normalize:
  assumes "validate_uuid u"
  shows "uuid_format (map lower (uuid_hex u)) = normalize u"
proof -
  from assms have len: "length u = 36"
    and dash: "u ! 8 = CHR ''-''" "u ! 13 = CHR ''-''" "u ! 18 = CHR ''-''" "u ! 23 = CHR ''-''"
    by (simp_all add: validate_uuid_def)
  let ?g1 = "take 8 u" and ?g2 = "take 4 (drop 9 u)" and ?g3 = "take 4 (drop 14 u)"
  let ?g4 = "take 4 (drop 19 u)" and ?g5 = "drop 24 u"
  from len have l: "length ?g1 = 8" "length ?g2 = 4" "length ?g3 = 4" "length ?g4 = 4"
    by simp_all
  from len have h: "uuid_hex u = ?g1 @ ?g2 @ ?g3 @ ?g4 @ ?g5"
    by (simp add: uuid_hex_def)
  have "uuid_format (map lower (uuid_hex u)) =
        map lower ?g1 @ CHR ''-'' # map lower ?g2 @ CHR ''-'' # map lower ?g3 @ CHR ''-''
          # map lower ?g4 @ CHR ''-'' # map lower ?g5"
    using l by (simp only: h map_append) (rule uuid_format_parts, simp_all)
  also have "\<dots> = map lower (?g1 @ u ! 8 # ?g2 @ u ! 13 # ?g3 @ u ! 18 # ?g4 @ u ! 23 # ?g5)"
    by (simp add: dash lower_dash)
  also have "\<dots> = map lower u"
    using uuid_text_split [OF len] by simp
  finally show ?thesis by (simp add: normalize_def)
qed

lemma validate_uuid_hex:
  assumes "validate_uuid u"
  shows "length (uuid_hex u) = 32" and "list_all is_hex (uuid_hex u)"
  using assms by (simp_all add: validate_uuid_def uuid_hex_def)

text \<open>
  C3. For every valid UUID text, encoding succeeds with 16 bytes and decoding them gives
  the case-normalised text. The witness is the all-zero UUID.
\<close>

theorem C3_uuid_decode_encode:
  assumes "validate_uuid u"
  shows "\<exists>bs. uuid_encode u = Inr bs \<and> length bs = 16 \<and> uuid_decode bs = Inr (normalize u)"
proof -
  let ?h = "uuid_hex u"
  let ?bs = "hex_to_bytes ?h"
  from validate_uuid_hex [OF assms] have len: "length ?h = 32" and hex: "list_all is_hex ?h" .
  from len have lbs: "length ?bs = 16" by (simp add: length_hex_to_bytes)
  then have lsw: "length (guid_swap ?bs) = 16" by (simp add: length_guid_swap)
  from lbs have inv: "guid_swap (guid_swap ?bs) = ?bs" by (simp add: guid_swap_involution)
  from len hex have rt: "bytes_to_hex ?bs = map lower ?h" by (simp add: bytes_to_hex_to_bytes)
  have "uuid_encode u = Inr (guid_swap ?bs)" using assms by (simp add: uuid_encode_def)
  moreover have "uuid_decode (guid_swap ?bs) = Inr (normalize u)"
    using lsw by (simp add: uuid_decode_def inv rt uuid_format_normalize [OF assms])
  ultimately show ?thesis using lsw by simp
qed

lemma validate_uuid_format:
  assumes "length h = 32" and "list_all is_hex h"
  shows "validate_uuid (uuid_format h)" and "uuid_hex (uuid_format h) = h"
proof -
  let ?g1 = "take 8 h" and ?g2 = "take 4 (drop 8 h)" and ?g3 = "take 4 (drop 12 h)"
  let ?g4 = "take 4 (drop 16 h)" and ?g5 = "drop 20 h"
  from assms have l: "length ?g1 = 8" "length ?g2 = 4" "length ?g3 = 4" "length ?g4 = 4"
    "length ?g5 = 12" by simp_all
  have f: "uuid_format h = ?g1 @ CHR ''-'' # ?g2 @ CHR ''-'' # ?g3 @ CHR ''-'' # ?g4 @ CHR ''-'' # ?g5"
    by (simp add: uuid_format_def)
  have "take 8 h @ take 4 (drop 8 h) = take 12 h" using take_add [of 8 4 h] by simp
  moreover have "take 12 h @ take 4 (drop 12 h) = take 16 h" using take_add [of 12 4 h] by simp
  moreover have "take 16 h @ take 4 (drop 16 h) = take 20 h" using take_add [of 16 4 h] by simp
  ultimately have "?g1 @ ?g2 @ ?g3 @ ?g4 @ ?g5 = take 20 h @ drop 20 h"
    by (metis append.assoc)
  then have j: "?g1 @ ?g2 @ ?g3 @ ?g4 @ ?g5 = h" by simp
  show hx: "uuid_hex (uuid_format h) = h"
    using l by (simp only: f uuid_hex_parts j)
  have "length (uuid_format h) = 36" using assms by (simp add: uuid_format_def)
  moreover have "uuid_format h ! 8 = CHR ''-''" "uuid_format h ! 13 = CHR ''-''"
    "uuid_format h ! 18 = CHR ''-''" "uuid_format h ! 23 = CHR ''-''"
    using l by (simp_all add: f nth_append)
  ultimately show "validate_uuid (uuid_format h)"
    using assms by (simp add: validate_uuid_def hx)
qed

lemma uuid_encode_decode:
  assumes "length bs = 16"
  shows "\<exists>u. uuid_decode bs = Inr u \<and> validate_uuid u \<and> uuid_encode u = Inr bs
             \<and> normalize u = u"
proof -
  let ?h = "bytes_to_hex (guid_swap bs)"
  from assms have lh: "length ?h = 32" by (simp add: length_bytes_to_hex length_guid_swap)
  have hx: "list_all is_hex ?h" by (rule is_hex_bytes_to_hex)
  from validate_uuid_format [OF lh hx]
  have v: "validate_uuid (uuid_format ?h)" and x: "uuid_hex (uuid_format ?h) = ?h" .
  have d: "uuid_decode bs = Inr (uuid_format ?h)" using assms by (simp add: uuid_decode_def)
  have e: "uuid_encode (uuid_format ?h) = Inr bs"
    using assms by (simp add: uuid_encode_def v x hex_to_bytes_to_hex guid_swap_involution)
  have "normalize (uuid_format ?h) = uuid_format (map lower (uuid_hex (uuid_format ?h)))"
    using uuid_format_normalize [OF v] by simp
  then have n: "normalize (uuid_format ?h) = uuid_format ?h"
    by (simp add: x lower_bytes_to_hex)
  from d v e n show ?thesis by simp
qed

lemma zero_uuid_valid: "validate_uuid ''00000000-0000-0000-0000-000000000000''"
  by (simp add: validate_uuid_def uuid_hex_def is_hex_def hex_val_def lower_def hex_digits_def)

theorem C3_uuid_decode_encode_witness:
  "validate_uuid ''00000000-0000-0000-0000-000000000000''
   \<and> (\<exists>bs. uuid_encode ''00000000-0000-0000-0000-000000000000'' = Inr bs \<and> length bs = 16
         \<and> uuid_decode bs = Inr ''00000000-0000-0000-0000-000000000000'')"
  using C3_uuid_decode_encode [OF zero_uuid_valid] zero_uuid_valid
  by (simp add: normalize_def lower_def)

subsection \<open>Checksum and little-endian integers\<close>

lemma crc_poly_bit31: "bit crc_poly 31"
  by (simp add: crc_poly_def bit_iff_odd_drop_bit)

lemma crc_bit_top: "bit (crc_bit c) 31 = bit c 0"
  by (auto simp: crc_bit_def bit_simps crc_poly_bit31 dest: bit_imp_le_length)

lemma xor_cancel_right: "(x :: u32) XOR p = y XOR p \<Longrightarrow> x = y"
proof -
  assume "x XOR p = y XOR p"
  then have "(x XOR p) XOR p = (y XOR p) XOR p" by simp
  then show "x = y" by (simp add: xor.assoc)
qed

lemma crc_bit_inj: "crc_bit c = crc_bit d \<Longrightarrow> c = d"
proof -
  assume e: "crc_bit c = crc_bit d"
  then have b0: "bit c 0 = bit d 0" using crc_bit_top [of c] crc_bit_top [of d] by simp
  with e have d1: "drop_bit 1 c = drop_bit 1 d"
    by (auto simp: crc_bit_def split: if_splits dest: xor_cancel_right)
  show "c = d"
  proof (rule bit_eqI)
    fix n
    show "bit c n = bit d n"
    proof (cases n)
      case 0
      with b0 show ?thesis by simp
    next
      case (Suc m)
      have "bit (drop_bit 1 c) m = bit (drop_bit 1 d) m" using d1 by simp
      then show ?thesis using Suc by (simp add: bit_drop_bit_eq)
    qed
  qed
qed

lemma byte_index_cases:
  assumes "n < (32::nat)"
  obtains "n < 8" | "8 \<le> n" "n < 16" | "16 \<le> n" "n < 24" | "24 \<le> n" "n < 32"
  using assms by linarith

lemma u32_bytes_inverse: "bytes_u32 (u32_bytes w) = w"
proof (rule bit_word_eqI)
  fix n
  assume "n < LENGTH(32)"
  then have "n < 32" by simp
  then show "bit (bytes_u32 (u32_bytes w)) n = bit w n"
    by (cases rule: byte_index_cases) (auto simp: u32_bytes_def bit_simps)
qed


lemma bytes_u32_inverse: "u32_bytes (bytes_u32 [a, b, c, d]) = [a, b, c, d]"
proof -
  have "ucast (bytes_u32 [a, b, c, d]) = a"
    by (rule bit_word_eqI) (auto simp: bit_simps dest: bit_imp_le_length)
  moreover have "ucast (drop_bit 8 (bytes_u32 [a, b, c, d])) = b"
    by (rule bit_word_eqI) (auto simp: bit_simps dest: bit_imp_le_length)
  moreover have "ucast (drop_bit 16 (bytes_u32 [a, b, c, d])) = c"
    by (rule bit_word_eqI) (auto simp: bit_simps dest: bit_imp_le_length)
  moreover have "ucast (drop_bit 24 (bytes_u32 [a, b, c, d])) = d"
    by (rule bit_word_eqI) (auto simp: bit_simps dest: bit_imp_le_length)
  ultimately show ?thesis by (simp add: u32_bytes_def)
qed

lemma length_u32_bytes: "length (u32_bytes w) = 4"
  by (simp add: u32_bytes_def)

lemma crc_bit_pow_inj: "(crc_bit ^^ k) c = (crc_bit ^^ k) d \<Longrightarrow> c = d"
  by (induction k) (auto dest: crc_bit_inj)

lemma ucast_byte_inj: "(ucast (a :: byte) :: u32) = ucast b \<Longrightarrow> a = b"
proof -
  assume e: "(ucast a :: u32) = ucast b"
  show "a = b"
  proof (rule bit_word_eqI)
    fix n assume "n < LENGTH(8)"
    moreover have "bit (ucast a :: u32) n = bit (ucast b :: u32) n" using e by simp
    ultimately show "bit a n = bit b n" by (simp add: bit_simps)
  qed
qed

lemma xor_cancel_left: "(c :: u32) XOR x = c XOR y \<Longrightarrow> x = y"
  using xor_cancel_right [of x c y] by (simp add: xor.commute)

lemma crc_byte_inj_state: "crc_byte c b = crc_byte d b \<Longrightarrow> c = d"
  by (auto simp: crc_byte_def dest!: crc_bit_pow_inj xor_cancel_right)

lemma crc_byte_inj_byte: "crc_byte c a = crc_byte c b \<Longrightarrow> a = b"
  by (auto simp: crc_byte_def dest!: crc_bit_pow_inj xor_cancel_left ucast_byte_inj)

lemma foldl_crc_byte_inj: "foldl crc_byte c bs = foldl crc_byte d bs \<Longrightarrow> c = d"
  by (induction bs arbitrary: c d) (auto dest: crc_byte_inj_state)

lemma crc32_one_byte_changed:
  assumes "a \<noteq> b"
  shows "crc32 (p @ a # s) \<noteq> crc32 (p @ b # s)"
proof
  assume "crc32 (p @ a # s) = crc32 (p @ b # s)"
  then have "foldl crc_byte (crc_byte (foldl crc_byte 0xFFFFFFFF p) a) s
           = foldl crc_byte (crc_byte (foldl crc_byte 0xFFFFFFFF p) b) s"
    by (auto simp: crc32_def dest: xor_cancel_right)
  then have "crc_byte (foldl crc_byte 0xFFFFFFFF p) a = crc_byte (foldl crc_byte 0xFFFFFFFF p) b"
    by (rule foldl_crc_byte_inj)
  then have "a = b" by (rule crc_byte_inj_byte)
  with assms show False by simp
qed

subsection \<open>The binary record\<close>

lemma slice_concat:
  "list_all (\<lambda>x. length x = n) xs \<Longrightarrow> j < length xs \<Longrightarrow>
   take n (drop (j * n) (concat xs)) = xs ! j"
proof (induction xs arbitrary: j)
  case Nil
  then show ?case by simp
next
  case (Cons x xs)
  show ?case
  proof (cases j)
    case 0
    with Cons.prems show ?thesis by simp
  next
    case (Suc k)
    with Cons.prems have "k < length xs" "list_all (\<lambda>x. length x = n) xs" "length x = n"
      by simp_all
    with Cons.IH [of k] Suc show ?thesis by simp
  qed
qed

lemma length_concat_fixed:
  "list_all (\<lambda>x. length x = n) xs \<Longrightarrow> length (concat xs) = length xs * n"
  by (induction xs) simp_all

lemma map_slices:
  "list_all (\<lambda>x. length x = n) xs \<Longrightarrow>
   map (\<lambda>j. f (take n (drop (j * n) (concat xs)))) [0..<length xs] = map f xs"
proof -
  assume a: "list_all (\<lambda>x. length x = n) xs"
  have "map (\<lambda>j. f (take n (drop (j * n) (concat xs)))) [0..<length xs]
      = map (\<lambda>j. f (xs ! j)) [0..<length xs]"
    using a by (simp add: slice_concat)
  also have "\<dots> = map f (map (\<lambda>j. xs ! j) [0..<length xs])" by simp
  also have "\<dots> = map f xs" by (simp add: map_nth)
  finally show ?thesis .
qed

lemma length_bank_bytes: "bank_ok b \<Longrightarrow> length (bank_bytes b) = 24"
  by (simp add: bank_ok_def bank_bytes_def length_u32_bytes uuid_size_def)

lemma bytes_u32_u32_bytes_append: "bytes_u32 (take 4 (u32_bytes w @ rest)) = w"
  by (simp add: length_u32_bytes u32_bytes_inverse)


lemma layout_values:
  assumes "calc_layout ic bc = Inr L"
  shows "off_crc32 L = 0" "off_version L = 4" "off_active_index L = 8"
    "off_previous_active_index L = 12" "entries_offset L = 16"
    "off_img_type_uuid L = 0" "off_location_uuid L = 16" "banks_offset L = 32"
    "off_img_uuid L = 0" "off_accepted L = 16" "off_reserved L = 20"
    "bank_stride L = 24" "entry_stride L = 32 + nat bc * 24"
    "total_size L = 16 + nat ic * (32 + nat bc * 24)"
    "image_count L = nat ic" "bank_count L = nat bc"
proof -
  from assms have "1 \<le> ic" "1 \<le> bc" by (auto simp: calc_layout_def split: if_splits)
  from calc_layout_Inr [OF this] assms
  have "L = \<lparr> image_count = nat ic, bank_count = nat bc,
          off_crc32 = 0, off_version = 4, off_active_index = 8,
          off_previous_active_index = 12, entries_offset = 16,
          off_img_type_uuid = 0, off_location_uuid = 16,
          banks_offset = 32, off_img_uuid = 0, off_accepted = 16,
          off_reserved = 20, bank_stride = 24, entry_stride = 32 + nat bc * 24,
          total_size = 16 + nat ic * (32 + nat bc * 24) \<rparr>" by simp
  then show "off_crc32 L = 0" "off_version L = 4" "off_active_index L = 8"
    "off_previous_active_index L = 12" "entries_offset L = 16"
    "off_img_type_uuid L = 0" "off_location_uuid L = 16" "banks_offset L = 32"
    "off_img_uuid L = 0" "off_accepted L = 16" "off_reserved L = 20"
    "bank_stride L = 24" "entry_stride L = 32 + nat bc * 24"
    "total_size L = 16 + nat ic * (32 + nat bc * 24)"
    "image_count L = nat ic" "bank_count L = nat bc"
    by simp_all
qed

lemma read_bank_bytes:
  assumes "calc_layout ic bc = Inr L" and "bank_ok b"
  shows "read_bank L (bank_bytes b) = b"
  using assms(2)
  by (simp add: read_bank_def bank_bytes_def slice_def read_u32_def bank_ok_def
      layout_values [OF assms(1)] u32_size_def uuid_size_def length_u32_bytes
      u32_bytes_inverse)

lemma read_entry_bytes:
  assumes L: "calc_layout ic bc = Inr L" and ok: "entry_ok L e"
  shows "read_entry L (entry_bytes e) = e"
proof -
  let ?bs = "map bank_bytes (e_bank_info e)"
  from ok have lt: "length (e_img_type_uuid e) = 16" and ll: "length (e_location_uuid e) = 16"
    and lb: "length (e_bank_info e) = bank_count L" and bok: "list_all bank_ok (e_bank_info e)"
    by (simp_all add: entry_ok_def uuid_size_def)
  from bok have fixed: "list_all (\<lambda>x. length x = 24) ?bs"
    by (simp add: list_all_iff length_bank_bytes)
  have "map (\<lambda>j. read_bank L (take 24 (drop (j * 24) (concat ?bs)))) [0..<length ?bs]
      = map (read_bank L) ?bs"
    using fixed by (rule map_slices)
  also have "\<dots> = map (\<lambda>b. read_bank L (bank_bytes b)) (e_bank_info e)" by simp
  also have "\<dots> = e_bank_info e"
    using bok by (simp add: list_all_iff read_bank_bytes [OF L] map_idI)
  finally have banks: "map (\<lambda>j. read_bank L (take 24 (drop (j * 24) (concat ?bs))))
      [0..<bank_count L] = e_bank_info e" using lb by simp
  have d: "\<And>j. drop (32 + j * 24) (entry_bytes e) = drop (j * 24) (concat ?bs)"
    using lt ll by (simp add: entry_bytes_def)
  show ?thesis
    using lt ll banks
    by (simp add: read_entry_def slice_def layout_values [OF L] uuid_size_def d)
      (simp add: entry_bytes_def)
qed

lemma length_entry_bytes:
  assumes "entry_ok L e"
  shows "length (entry_bytes e) = 32 + bank_count L * 24"
proof -
  from assms have "list_all (\<lambda>x. length x = 24) (map bank_bytes (e_bank_info e))"
    by (simp add: entry_ok_def list_all_iff length_bank_bytes)
  from length_concat_fixed [OF this] assms show ?thesis
    by (simp add: entry_bytes_def entry_ok_def uuid_size_def)
qed

lemma read_record_bytes:
  assumes L: "calc_layout ic bc = Inr L" and ok: "record_ok L r"
  shows "read_record L (record_bytes r) = r"
proof -
  let ?es = "map entry_bytes (f_img_entry r)"
  let ?n = "32 + nat bc * 24"
  from ok have le: "length (f_img_entry r) = image_count L"
    and eok: "list_all (entry_ok L) (f_img_entry r)"
    by (simp_all add: record_ok_def)
  from eok have fixed: "list_all (\<lambda>x. length x = ?n) ?es"
    using length_entry_bytes [of L] by (simp add: list_all_iff layout_values [OF L])
  have "map (\<lambda>i. read_entry L (take ?n (drop (i * ?n) (concat ?es)))) [0..<length ?es]
      = map (read_entry L) ?es"
    using fixed by (rule map_slices)
  also have "\<dots> = map (\<lambda>e. read_entry L (entry_bytes e)) (f_img_entry r)" by simp
  also have "\<dots> = f_img_entry r"
    using eok by (simp add: list_all_iff read_entry_bytes [OF L] map_idI)
  finally have entries: "map (\<lambda>i. read_entry L (take ?n (drop (i * ?n) (concat ?es))))
      [0..<image_count L] = f_img_entry r" using le by simp
  have d: "\<And>i. drop (16 + i * ?n) (record_bytes r) = drop (i * ?n) (concat ?es)"
    by (simp add: record_bytes_def length_u32_bytes)
  show ?thesis
    using entries
    by (simp add: read_record_def slice_def read_u32_def layout_values [OF L] u32_size_def d)
      (simp add: record_bytes_def length_u32_bytes u32_bytes_inverse)
qed

lemma length_record_bytes:
  assumes L: "calc_layout ic bc = Inr L" and ok: "record_ok L r"
  shows "length (record_bytes r) = total_size L"
proof -
  from ok have "list_all (\<lambda>x. length x = 32 + nat bc * 24) (map entry_bytes (f_img_entry r))"
    using length_entry_bytes [of L]
    by (simp add: record_ok_def list_all_iff layout_values [OF L])
  from length_concat_fixed [OF this] ok show ?thesis
    by (simp add: record_bytes_def record_ok_def length_u32_bytes layout_values [OF L])
qed


lemma less10: "(n::nat) < 10 \<longleftrightarrow> n \<in> {0,1,2,3,4,5,6,7,8,9}"
  by (simp only: insert_iff empty_iff) presburger

lemma less10E:
  assumes "(n::nat) < 10"
  obtains "n = 0" | "n = 1" | "n = 2" | "n = 3" | "n = 4" | "n = 5" | "n = 6" | "n = 7"
    | "n = 8" | "n = 9"
  using assms by (simp only: less10 insert_iff empty_iff) blast

lemma digit_char_inj: "m < 10 \<Longrightarrow> n < 10 \<Longrightarrow> digit_char m = digit_char n \<Longrightarrow> m = n"
  by (erule less10E; erule less10E; simp add: digit_char_def)

lemma digit_char_not_underscore: "n < 10 \<Longrightarrow> digit_char n \<noteq> CHR ''_''"
  by (erule less10E) (simp_all add: digit_char_def)

declare string_of_nat.simps [simp del]

lemma string_of_nat_nonempty: "string_of_nat n \<noteq> []"
  by (subst string_of_nat.simps) simp

lemma string_of_nat_no_underscore: "CHR ''_'' \<notin> set (string_of_nat n)"
proof (induction n rule: string_of_nat.induct)
  case (1 n)
  show ?case
  proof (cases "n < 10")
    case True
    then show ?thesis
      using digit_char_not_underscore [of n] by (subst string_of_nat.simps) auto
  next
    case False
    have "n mod 10 < 10" by simp
    with False 1 show ?thesis
      using digit_char_not_underscore [of "n mod 10"] by (subst string_of_nat.simps) auto
  qed
qed

lemma string_of_nat_inj: "string_of_nat m = string_of_nat n \<Longrightarrow> m = n"
proof (induction m arbitrary: n rule: string_of_nat.induct)
  case (1 m)
  show ?case
  proof (cases "m < 10")
    case m: True
    show ?thesis
    proof (cases "n < 10")
      case True
      with m "1.prems" show ?thesis
        by (simp add: string_of_nat.simps [of m] string_of_nat.simps [of n] digit_char_inj)
    next
      case False
      with m "1.prems" show ?thesis
        using string_of_nat_nonempty [of "n div 10"]
        by (simp add: string_of_nat.simps [of m] string_of_nat.simps [of n])
    qed
  next
    case m: False
    show ?thesis
    proof (cases "n < 10")
      case True
      with m "1.prems" show ?thesis
        using string_of_nat_nonempty [of "m div 10"]
        by (simp add: string_of_nat.simps [of m] string_of_nat.simps [of n])
    next
      case False
      with m "1.prems" have e: "string_of_nat (m div 10) = string_of_nat (n div 10)"
        and d: "digit_char (m mod 10) = digit_char (n mod 10)"
        by (simp_all add: string_of_nat.simps [of m] string_of_nat.simps [of n])
      from "1.IH" [OF m e] have "m div 10 = n div 10" .
      moreover from d have "m mod 10 = n mod 10" by (simp add: digit_char_inj)
      ultimately show ?thesis by (metis div_mult_mod_eq)
    qed
  qed
qed

lemma underscore_split:
  assumes "CHR ''_'' \<notin> set xs" and "CHR ''_'' \<notin> set ys"
    and "xs @ CHR ''_'' # r1 = ys @ CHR ''_'' # r2"
  shows "xs = ys \<and> r1 = r2"
  using assms
proof (induction xs arbitrary: ys)
  case Nil
  then show ?case by (cases ys) auto
next
  case (Cons x xs)
  then show ?case by (cases ys) auto
qed

lemma image_key_inj: "image_key i = image_key k \<Longrightarrow> i = k"
  by (simp add: image_key_def string_of_nat_inj)

lemma location_key_inj: "location_key i = location_key k \<Longrightarrow> i = k"
  by (simp add: location_key_def string_of_nat_inj)

lemma image_key_not_bank_key: "image_key i \<noteq> bank_key k j"
proof
  assume "image_key i = bank_key k j"
  then have "string_of_nat i = string_of_nat k @ ''_bank_'' @ string_of_nat j"
    by (simp add: image_key_def bank_key_def)
  then have "CHR ''_'' \<in> set (string_of_nat i)" by simp
  with string_of_nat_no_underscore show False by blast
qed

lemma bank_key_inj: "bank_key i j = bank_key k l \<Longrightarrow> i = k \<and> j = l"
proof -
  assume "bank_key i j = bank_key k l"
  then have "string_of_nat i @ CHR ''_'' # (''bank_'' @ string_of_nat j)
           = string_of_nat k @ CHR ''_'' # (''bank_'' @ string_of_nat l)"
    by (simp add: image_key_def bank_key_def)
  from underscore_split [OF string_of_nat_no_underscore string_of_nat_no_underscore this]
  show ?thesis by (simp add: string_of_nat_inj)
qed

end
